theory Spec2Isabelle
  imports Main "HOL-Library.AList"
begin

section \<open>Go values as the diff engine sees them\<close>

text \<open>
  The library works on values of Go's dynamic type \<^verbatim>\<open>any\<close> and inspects them with
  \<^verbatim>\<open>reflect\<close>. A value carries its dynamic type, so every container below records
  the static type of its elements: \<open>TAny\<close> elements are interface values
  (\<^verbatim>\<open>map[string]any\<close>, \<^verbatim>\<open>[]any\<close>), any other element type is concrete
  (\<^verbatim>\<open>[]string\<close>, \<^verbatim>\<open>map[string]int\<close>).

  The universe: the nil interface, integers, strings, booleans, \<^verbatim>\<open>time.Time\<close>
  (an instant and a location), pointers (an address and the pointee; nil pointers apart),
  slices and string-keyed maps (nil ones apart) and named struct values. A map is the list
  of its entries in iteration order; a Go map has no duplicate keys, which theorems state
  as \<open>distinct (map fst m)\<close> where they need it. Floats, arrays, functions, channels,
  maps with other key types and anonymous (embedded) fields are outside the model.
\<close>

datatype gtype = TInt | TString | TBool | TTime | TAny
  | TPtr gtype | TSlice gtype | TMap gtype | TStruct string

text \<open>
  A struct field as \<^verbatim>\<open>reflect.StructField\<close> describes it: the declared name, whether it
  is exported, the value of \<^verbatim>\<open>Tag.Get("json")\<close>, and whether its static type is an
  interface (then \<^verbatim>\<open>reflect\<close> reports the kind \<^verbatim>\<open>Interface\<close> for it).
\<close>

datatype field = Field (Name: string) (IsExported: bool) (json_tag: string) (IsIface: bool)

datatype val =
    VNil
  | VInt int
  | VStr string
  | VBool bool
  | VTime int nat
  | VNilPtr gtype
  | VPtr gtype nat val
  | VNilSlice gtype
  | VSlice gtype "val list"
  | VNilMap gtype
  | VMap gtype "(string \<times> val) list"
  | VStruct string "(field \<times> val) list"

text \<open>The error taxonomy of the library. The diff engine never builds one of them.\<close>

datatype error = NotFoundError string | TypeError string | NullabilityError string

text \<open>A value of type \<^verbatim>\<open>map[string]any\<close>: \<open>None\<close> is the nil map.\<close>

type_synonym patch = "(string \<times> val) list"

type_synonym gomap = "patch option"

definition gentries :: "gomap \<Rightarrow> patch" where
  "gentries m = (case m of None \<Rightarrow> [] | Some xs \<Rightarrow> xs)"

fun typeOf :: "val \<Rightarrow> gtype option" where
  "typeOf VNil = None"
| "typeOf (VInt i) = Some TInt"
| "typeOf (VStr s) = Some TString"
| "typeOf (VBool b) = Some TBool"
| "typeOf (VTime i z) = Some TTime"
| "typeOf (VNilPtr t) = Some (TPtr t)"
| "typeOf (VPtr t a v) = Some (TPtr t)"
| "typeOf (VNilSlice t) = Some (TSlice t)"
| "typeOf (VSlice t xs) = Some (TSlice t)"
| "typeOf (VNilMap t) = Some (TMap t)"
| "typeOf (VMap t m) = Some (TMap t)"
| "typeOf (VStruct n fs) = Some (TStruct n)"

subsection \<open>Go's \<^verbatim>\<open>==\<close> on interface values\<close>

text \<open>
  \<^verbatim>\<open>a == b\<close> on two \<^verbatim>\<open>any\<close> values is false when the dynamic types differ, panics
  when they agree on a type that is not comparable (slices, maps, structs with such
  fields), and compares the values otherwise: pointers by address, structs field by
  field in declaration order, stopping at the first mismatch. \<open>None\<close> is the panic.
\<close>

fun comparable :: "val \<Rightarrow> bool" where
  "comparable (VNilSlice t) = False"
| "comparable (VSlice t xs) = False"
| "comparable (VNilMap t) = False"
| "comparable (VMap t m) = False"
| "comparable (VStruct n fs) = list_all (\<lambda>p. IsIface (fst p) \<or> comparable (snd p)) fs"
| "comparable v = True"

fun go_eq :: "val \<Rightarrow> val \<Rightarrow> bool option"
  and go_eq_fields :: "(field \<times> val) list \<Rightarrow> (field \<times> val) list \<Rightarrow> bool option" where
  "go_eq VNil b = Some (b = VNil)"
| "go_eq (VInt i) b = Some (b = VInt i)"
| "go_eq (VStr s) b = Some (b = VStr s)"
| "go_eq (VBool x) b = Some (b = VBool x)"
| "go_eq (VTime i z) b = Some (b = VTime i z)"
| "go_eq (VNilPtr t) b = Some (b = VNilPtr t)"
| "go_eq (VPtr t a v) b = Some (case b of VPtr t' a' v' \<Rightarrow> t' = t \<and> a' = a | _ \<Rightarrow> False)"
| "go_eq (VNilSlice t) b = (if typeOf b = Some (TSlice t) then None else Some False)"
| "go_eq (VSlice t xs) b = (if typeOf b = Some (TSlice t) then None else Some False)"
| "go_eq (VNilMap t) b = (if typeOf b = Some (TMap t) then None else Some False)"
| "go_eq (VMap t m) b = (if typeOf b = Some (TMap t) then None else Some False)"
| "go_eq (VStruct n fs) b =
     (case b of
        VStruct n' gs \<Rightarrow>
          if n' \<noteq> n then Some False
          else if \<not> comparable (VStruct n fs) then None
          else go_eq_fields fs gs
      | _ \<Rightarrow> Some False)"
| "go_eq_fields [] gs = Some True"
| "go_eq_fields (p # fs) gs =
     (case gs of
        [] \<Rightarrow> Some True
      | q # gs' \<Rightarrow>
          (case go_eq (snd p) (snd q) of
             None \<Rightarrow> None
           | Some False \<Rightarrow> Some False
           | Some True \<Rightarrow> go_eq_fields fs gs'))"

text \<open>
  \<^verbatim>\<open>safeEqual\<close> (diff.go): the comparison runs under a deferred \<^verbatim>\<open>recover()\<close>, so a
  panic of \<^verbatim>\<open>a == b\<close> makes the function return the zero value \<^verbatim>\<open>false\<close>.
\<close>

definition safeEqual :: "val \<Rightarrow> val \<Rightarrow> bool" where
  "safeEqual a b = (case go_eq a b of None \<Rightarrow> False | Some r \<Rightarrow> r)"

subsection \<open>Type tests of diffmaps.go\<close>

definition isMap :: "val \<Rightarrow> bool" where
  "isMap v = (case v of VNilMap t \<Rightarrow> t = TAny | VMap t m \<Rightarrow> t = TAny | _ \<Rightarrow> False)"

definition isSlice :: "val \<Rightarrow> bool" where
  "isSlice v = (case v of VNilSlice t \<Rightarrow> t = TAny | VSlice t xs \<Rightarrow> t = TAny | _ \<Rightarrow> False)"

definition isStruct :: "val \<Rightarrow> bool" where
  "isStruct v = (case v of VStruct n fs \<Rightarrow> True | VTime i z \<Rightarrow> True | _ \<Rightarrow> False)"

text \<open>
  The type assertion \<^verbatim>\<open>v.(map[string]any)\<close> after \<^verbatim>\<open>isMap(v)\<close>, and the conversion of
  a \<^verbatim>\<open>map[string]any\<close> back to \<^verbatim>\<open>any\<close> (a nil map stays a typed nil).
\<close>

definition asMap :: "val \<Rightarrow> gomap" where
  "asMap v = (case v of VMap t m \<Rightarrow> Some m | _ \<Rightarrow> None)"

definition ofMap :: "gomap \<Rightarrow> val" where
  "ofMap m = (case m of None \<Rightarrow> VNilMap TAny | Some xs \<Rightarrow> VMap TAny xs)"

definition elems :: "val \<Rightarrow> val list" where
  "elems v = (case v of VSlice t xs \<Rightarrow> xs | _ \<Rightarrow> [])"

definition entries :: "val \<Rightarrow> patch" where
  "entries v = (case v of VMap t m \<Rightarrow> m | _ \<Rightarrow> [])"

definition elemType :: "val \<Rightarrow> gtype" where
  "elemType v = (case v of VNilSlice t \<Rightarrow> t | VSlice t xs \<Rightarrow> t | VNilMap t \<Rightarrow> t | VMap t m \<Rightarrow> t
                   | _ \<Rightarrow> TAny)"

subsection \<open>\<^verbatim>\<open>reflect.Value\<close>\<close>

text \<open>
  A \<^verbatim>\<open>reflect.Value\<close> is the value together with whether its static type is an
  interface. The zero Value (\<^verbatim>\<open>reflect.ValueOf(nil)\<close>, \<^verbatim>\<open>reflect.Value{}\<close>) is
  \<open>RV False VNil\<close>.
\<close>

datatype rvalue = RV (is_iface: bool) (content: val)

datatype kind = KInvalid | KInterface | KInt | KString | KBool | KStruct | KPointer | KSlice | KMap

definition ValueOf :: "val \<Rightarrow> rvalue" where
  "ValueOf v = RV False v"

definition Interface :: "rvalue \<Rightarrow> val" where
  "Interface r = content r"

fun Kind :: "rvalue \<Rightarrow> kind" where
  "Kind (RV True v) = KInterface"
| "Kind (RV False VNil) = KInvalid"
| "Kind (RV False (VInt i)) = KInt"
| "Kind (RV False (VStr s)) = KString"
| "Kind (RV False (VBool b)) = KBool"
| "Kind (RV False (VTime i z)) = KStruct"
| "Kind (RV False (VNilPtr t)) = KPointer"
| "Kind (RV False (VPtr t a v)) = KPointer"
| "Kind (RV False (VNilSlice t)) = KSlice"
| "Kind (RV False (VSlice t xs)) = KSlice"
| "Kind (RV False (VNilMap t)) = KMap"
| "Kind (RV False (VMap t m)) = KMap"
| "Kind (RV False (VStruct n fs)) = KStruct"

definition IsValid :: "rvalue \<Rightarrow> bool" where
  "IsValid r = (Kind r \<noteq> KInvalid)"

definition IsNil :: "rvalue \<Rightarrow> bool" where
  "IsNil r = (case content r of VNil \<Rightarrow> True | VNilPtr t \<Rightarrow> True | VNilSlice t \<Rightarrow> True
                | VNilMap t \<Rightarrow> True | _ \<Rightarrow> False)"

definition Type :: "rvalue \<Rightarrow> gtype option" where
  "Type r = (if is_iface r then Some TAny else typeOf (content r))"

fun Elem :: "rvalue \<Rightarrow> rvalue" where
  "Elem (RV False (VPtr t a v)) = RV (t = TAny) v"
| "Elem r = RV False VNil"

definition Fields :: "rvalue \<Rightarrow> (field \<times> val) list" where
  "Fields r = (case content r of VStruct n fs \<Rightarrow> fs | _ \<Rightarrow> [])"

definition NumField :: "rvalue \<Rightarrow> nat" where
  "NumField r = length (Fields r)"

definition fieldValue :: "field \<times> val \<Rightarrow> rvalue" where
  "fieldValue p = RV (IsIface (fst p)) (snd p)"

text \<open>\<^verbatim>\<open>time.Time.Equal\<close>: the same instant, whatever the location.\<close>

definition TimeEqual :: "val \<Rightarrow> val \<Rightarrow> bool" where
  "TimeEqual a b = (case (a, b) of (VTime i z, VTime j y) \<Rightarrow> i = j | _ \<Rightarrow> False)"

section \<open>The value normalizer: \<^verbatim>\<open>ToMap\<close>\<close>

text \<open>\<^verbatim>\<open>strings.Split(tag, ",")[0]\<close> is the tag up to its first comma.\<close>

definition parseName :: "string \<Rightarrow> string \<Rightarrow> string" where
  "parseName tag fallback =
     (if tag = [] then fallback
      else let name = takeWhile (\<lambda>c. c \<noteq> CHR '','') tag
           in if name = [] then fallback else name)"

text \<open>
  \<^verbatim>\<open>toMapValue\<close> with its three loops: over the fields of a struct, the elements of a
  slice and the keys of a map. A value of kind \<^verbatim>\<open>Interface\<close> takes the
  \<^verbatim>\<open>default\<close> branch of the switch and is returned as it is.
\<close>

function (sequential) toMapValue :: "rvalue \<Rightarrow> val"
  and toMap_fields :: "(field \<times> val) list \<Rightarrow> patch \<Rightarrow> patch"
  and toMap_elems :: "gtype \<Rightarrow> val list \<Rightarrow> val list"
  and toMap_entries :: "gtype \<Rightarrow> patch \<Rightarrow> patch \<Rightarrow> patch"
where
  "toMapValue (RV True v) = v"
| "toMapValue (RV False VNil) = VNil"
| "toMapValue (RV False (VNilPtr t)) = VNil"
| "toMapValue (RV False (VPtr t a v)) = toMapValue (RV (t = TAny) v)"
| "toMapValue (RV False (VTime i z)) = VTime i z"
| "toMapValue (RV False (VStruct n fs)) = VMap TAny (toMap_fields fs [])"
| "toMapValue (RV False (VNilSlice t)) = VNil"
| "toMapValue (RV False (VSlice t xs)) = VSlice TAny (toMap_elems t xs)"
| "toMapValue (RV False (VNilMap t)) = VNil"
| "toMapValue (RV False (VMap t m)) = VMap TAny (toMap_entries t m [])"
| "toMapValue (RV False (VInt i)) = VInt i"
| "toMapValue (RV False (VStr s)) = VStr s"
| "toMapValue (RV False (VBool b)) = VBool b"
| "toMap_fields [] m = m"
| "toMap_fields (p # fs) m =
     (if \<not> IsExported (fst p) then toMap_fields fs m
      else if json_tag (fst p) = ''-'' then toMap_fields fs m
      else if Kind (RV (IsIface (fst p)) (snd p)) = KPointer \<and> IsNil (RV (IsIface (fst p)) (snd p))
      then toMap_fields fs m
      else let v = toMapValue (RV (IsIface (fst p)) (snd p))
           in if v \<noteq> VNil
              then toMap_fields fs (AList.update (parseName (json_tag (fst p)) (Name (fst p))) v m)
              else toMap_fields fs m)"
| "toMap_elems t [] = []"
| "toMap_elems t (x # xs) = toMapValue (RV (t = TAny) x) # toMap_elems t xs"
| "toMap_entries t [] m = m"
| "toMap_entries t (e # es) m =
     toMap_entries t es (AList.update (fst e) (toMapValue (RV (t = TAny) (snd e))) m)"
  by pat_completeness auto

termination
  by (relation "measure (\<lambda>x. case x of
          Inl (Inl r) \<Rightarrow> 2 * size (content r) + 1
        | Inl (Inr (fs, m)) \<Rightarrow> 2 * size (VStruct [] fs)
        | Inr (Inl (t, xs)) \<Rightarrow> 2 * size (VSlice t xs)
        | Inr (Inr (t, es, m)) \<Rightarrow> 2 * size (VMap t es))")
     auto

text \<open>
  \<^verbatim>\<open>ToMap\<close> keeps the result of \<^verbatim>\<open>toMapValue\<close> when the assertion
  \<^verbatim>\<open>result.(map[string]any)\<close> holds, and returns nil otherwise: also for a map of another
  type, which \<^verbatim>\<open>toMapValue\<close> hands back unchanged from behind an interface.
\<close>

definition ToMap :: "val \<Rightarrow> gomap" where
  "ToMap v = (case toMapValue (ValueOf v) of
                VMap t m \<Rightarrow> if t = TAny then Some m else None
              | _ \<Rightarrow> None)"

section \<open>The diff engine\<close>

subsection \<open>\<^verbatim>\<open>directValuesEqual\<close>\<close>

text \<open>
  The comparison of two field values through \<^verbatim>\<open>reflect\<close>. Its last line,
  \<^verbatim>\<open>a.Interface() == b.Interface()\<close>, and the \<^verbatim>\<open>time.Time\<close> case call
  \<^verbatim>\<open>Value.Interface\<close>, which panics on a value reached through an unexported field
  (the flag \<open>ro\<close>: \<^verbatim>\<open>reflect\<close> hands it down from a struct to its fields, elements
  and pointees); the comparison itself panics as \<open>go_eq\<close> does. Nothing recovers here.
  The loop over the fields visits every field, exported or not.
\<close>

function (sequential) directValuesEqual :: "bool \<Rightarrow> rvalue \<Rightarrow> rvalue \<Rightarrow> bool option"
  and dve_fields :: "bool \<Rightarrow> (field \<times> val) list \<Rightarrow> (field \<times> val) list \<Rightarrow> bool option"
  and dve_elems :: "bool \<Rightarrow> gtype \<Rightarrow> val list \<Rightarrow> val list \<Rightarrow> bool option"
  and dve_keys :: "bool \<Rightarrow> gtype \<Rightarrow> (string \<times> val) list \<Rightarrow> (string \<times> val) list \<Rightarrow> bool option"
where
  "directValuesEqual ro a b =
     (if \<not> IsValid a \<and> \<not> IsValid b then Some True
      else if \<not> IsValid a \<or> \<not> IsValid b then Some False
      else if Type a \<noteq> Type b then Some False
      else if Kind a = KPointer \<and> Kind b = KPointer then
        (if IsNil a \<and> IsNil b then Some True
         else if IsNil a \<or> IsNil b then Some False
         else directValuesEqual ro (Elem a) (Elem b))
      else if Kind a = KStruct then
        (if Type a = Some TTime then
           (if ro then None else Some (TimeEqual (Interface a) (Interface b)))
         else if NumField a \<noteq> NumField b then Some False
         else dve_fields ro (Fields a) (Fields b))
      else if Kind a = KSlice \<and> Kind b = KSlice then
        (if IsNil a \<and> IsNil b then Some True
         else if IsNil a \<or> IsNil b then Some False
         else if length (elems (content a)) \<noteq> length (elems (content b)) then Some False
         else dve_elems ro (elemType (content a)) (elems (content a)) (elems (content b)))
      else if Kind a = KMap \<and> Kind b = KMap then
        (if IsNil a \<and> IsNil b then Some True
         else if IsNil a \<or> IsNil b then Some False
         else if length (entries (content a)) \<noteq> length (entries (content b)) then Some False
         else dve_keys ro (elemType (content a)) (entries (content a)) (entries (content b)))
      else if ro then None
      else go_eq (Interface a) (Interface b))"
| "dve_fields ro [] gs = Some True"
| "dve_fields ro (p # fs) gs =
     (case gs of
        [] \<Rightarrow> None
      | q # gs' \<Rightarrow>
          (case directValuesEqual (ro \<or> \<not> IsExported (fst p)) (fieldValue p) (fieldValue q) of
             None \<Rightarrow> None
           | Some False \<Rightarrow> Some False
           | Some True \<Rightarrow> dve_fields ro fs gs'))"
| "dve_elems ro t [] ys = Some True"
| "dve_elems ro t (x # xs) ys =
     (case ys of
        [] \<Rightarrow> None
      | y # ys' \<Rightarrow>
          (case directValuesEqual ro (RV (t = TAny) x) (RV (t = TAny) y) of
             None \<Rightarrow> None
           | Some False \<Rightarrow> Some False
           | Some True \<Rightarrow> dve_elems ro t xs ys'))"
| "dve_keys ro t [] bm = Some True"
| "dve_keys ro t (e # es) bm =
     (case map_of bm (fst e) of
        None \<Rightarrow> Some False
      | Some y \<Rightarrow>
          (case directValuesEqual ro (RV (t = TAny) (snd e)) (RV (t = TAny) y) of
             None \<Rightarrow> None
           | Some False \<Rightarrow> Some False
           | Some True \<Rightarrow> dve_keys ro t es bm))"
  by pat_completeness auto

subsection \<open>Helpers of \<^verbatim>\<open>diffSameTypeStructs\<close> and \<^verbatim>\<open>DiffMaps\<close>\<close>

text \<open>
  \<^verbatim>\<open>getFieldByName\<close> returns the first included field with the given external name;
  \<open>None\<close> is its \<^verbatim>\<open>false\<close>. \<open>deletedFields\<close> and \<open>deletedKeys\<close> are the second
  loops of \<^verbatim>\<open>diffSameTypeStructs\<close> and \<^verbatim>\<open>DiffMaps\<close>, \<open>copyAll\<close> and \<open>deleteAll\<close>
  the loops of \<^verbatim>\<open>DiffMaps\<close> for a nil side. \<^verbatim>\<open>seenInNew\<close> is the list of the keys
  set to true. \<open>mapOrNil\<close>, \<open>deref\<close> and \<open>ifValid\<close> name three expressions of
  \<^verbatim>\<open>Diff\<close> and \<^verbatim>\<open>diffStructValues\<close>.
\<close>

fun getFieldByName_loop :: "(field \<times> val) list \<Rightarrow> string \<Rightarrow> rvalue option" where
  "getFieldByName_loop [] name = None"
| "getFieldByName_loop (p # fs) name =
     (if \<not> IsExported (fst p) then getFieldByName_loop fs name
      else if json_tag (fst p) = ''-'' then getFieldByName_loop fs name
      else if parseName (json_tag (fst p)) (Name (fst p)) = name then Some (fieldValue p)
      else getFieldByName_loop fs name)"

definition getFieldByName :: "rvalue \<Rightarrow> string \<Rightarrow> rvalue option" where
  "getFieldByName structVal name = getFieldByName_loop (Fields structVal) name"

fun deletedFields :: "(field \<times> val) list \<Rightarrow> string list \<Rightarrow> patch \<Rightarrow> patch" where
  "deletedFields [] seenInNew result = result"
| "deletedFields (p # fs) seenInNew result =
     (if \<not> IsExported (fst p) then deletedFields fs seenInNew result
      else if json_tag (fst p) = ''-'' then deletedFields fs seenInNew result
      else let name = parseName (json_tag (fst p)) (Name (fst p))
           in if name \<notin> set seenInNew
              then (if \<not> (Kind (fieldValue p) = KPointer \<and> IsNil (fieldValue p))
                    then deletedFields fs seenInNew (AList.update name VNil result)
                    else deletedFields fs seenInNew result)
              else deletedFields fs seenInNew result)"

fun deletedKeys :: "patch \<Rightarrow> string list \<Rightarrow> patch \<Rightarrow> patch" where
  "deletedKeys [] seenInNew result = result"
| "deletedKeys (e # es) seenInNew result =
     (if fst e \<notin> set seenInNew
      then deletedKeys es seenInNew (AList.update (fst e) VNil result)
      else deletedKeys es seenInNew result)"

fun copyAll :: "patch \<Rightarrow> patch \<Rightarrow> patch" where
  "copyAll [] result = result"
| "copyAll (e # es) result = copyAll es (AList.update (fst e) (snd e) result)"

fun deleteAll :: "patch \<Rightarrow> patch \<Rightarrow> patch" where
  "deleteAll [] result = result"
| "deleteAll (e # es) result = deleteAll es (AList.update (fst e) VNil result)"

definition mapOrNil :: "val \<Rightarrow> gomap" where
  "mapOrNil v = (if isStruct v \<or> isMap v
                 then (if isStruct v then ToMap v else asMap v)
                 else None)"

definition deref :: "rvalue \<Rightarrow> rvalue" where
  "deref r = (if Kind r = KPointer then Elem r else r)"

definition ifValid :: "rvalue \<Rightarrow> val" where
  "ifValid r = (if IsValid r then Interface r else VNil)"

subsection \<open>\<^verbatim>\<open>Diff\<close>, \<^verbatim>\<open>DiffStructs\<close>, \<^verbatim>\<open>DiffMaps\<close> and \<^verbatim>\<open>valuesEqual\<close>\<close>

text \<open>
  The functions of diff.go and diffmaps.go call each other, so they are defined together
  by one recursion. A result is \<open>Some (value, err)\<close>, the pair the Go function returns, or
  \<open>None\<close> when the call panics. \<open>diffFields\<close> and \<open>diffKeys\<close> are the first loops of
  \<^verbatim>\<open>diffSameTypeStructs\<close> and \<^verbatim>\<open>DiffMaps\<close>: they thread \<^verbatim>\<open>result\<close> and
  \<^verbatim>\<open>seenInNew\<close> and stop with \<open>Inl err\<close> where the source returns \<^verbatim>\<open>nil, err\<close>.
\<close>

function (sequential) Diff :: "val \<Rightarrow> val \<Rightarrow> (val \<times> error option) option"
  and DiffStructs :: "val \<Rightarrow> val \<Rightarrow> (gomap \<times> error option) option"
  and diffStructValues :: "rvalue \<Rightarrow> rvalue \<Rightarrow> (gomap \<times> error option) option"
  and diffSameTypeStructs :: "rvalue \<Rightarrow> rvalue \<Rightarrow> (gomap \<times> error option) option"
  and diffFields :: "rvalue \<Rightarrow> (field \<times> val) list \<Rightarrow> patch \<Rightarrow> string list
                      \<Rightarrow> (error + patch \<times> string list) option"
  and DiffMaps :: "gomap \<Rightarrow> gomap \<Rightarrow> (gomap \<times> error option) option"
  and diffKeys :: "patch \<Rightarrow> patch \<Rightarrow> patch \<Rightarrow> string list
                      \<Rightarrow> (error + patch \<times> string list) option"
  and valuesEqual :: "val \<Rightarrow> val \<Rightarrow> bool option"
  and mapsEqual :: "patch \<Rightarrow> patch \<Rightarrow> bool option"
  and mapsEqual_loop :: "patch \<Rightarrow> patch \<Rightarrow> bool option"
  and slicesEqual :: "val list \<Rightarrow> val list \<Rightarrow> bool option"
  and slicesEqual_loop :: "val list \<Rightarrow> val list \<Rightarrow> bool option"
where
  "Diff old new =
     (if old = VNil \<and> new = VNil then Some (VNil, None)
      else if isStruct old \<and> isStruct new then
        (case DiffStructs old new of
           None \<Rightarrow> None
         | Some (result, err) \<Rightarrow> Some (ofMap result, err))
      else if isMap old \<and> isMap new then
        (case DiffMaps (asMap old) (asMap new) of
           None \<Rightarrow> None
         | Some (result, err) \<Rightarrow> Some (ofMap result, err))
      else
        let oldMap = mapOrNil old;
            newMap = mapOrNil new
        in if oldMap \<noteq> None \<or> newMap \<noteq> None then
             (case DiffMaps oldMap newMap of
                None \<Rightarrow> None
              | Some (result, err) \<Rightarrow> Some (ofMap result, err))
           else if safeEqual old new then Some (VNil, None)
           else Some (new, None))"
| "DiffStructs old new = diffStructValues (ValueOf old) (ValueOf new)"
| "diffStructValues oldVal newVal =
     (if \<not> IsValid oldVal \<and> \<not> IsValid newVal then Some (Some [], None)
      else if \<not> IsValid oldVal \<or> \<not> IsValid newVal then
        DiffMaps (ToMap (ifValid oldVal)) (ToMap (ifValid newVal))
      else if Kind oldVal = KPointer \<and> IsNil oldVal \<and> Kind newVal = KPointer \<and> IsNil newVal
      then Some (Some [], None)
      else if Kind oldVal = KPointer \<and> IsNil oldVal
      then diffStructValues (RV False VNil) newVal
      else
        let oldVal' = deref oldVal
        in if Kind newVal = KPointer \<and> IsNil newVal
           then diffStructValues oldVal' (RV False VNil)
           else
             let newVal' = deref newVal
             in if Kind oldVal' \<noteq> KStruct \<or> Kind newVal' \<noteq> KStruct then
                  DiffMaps (ToMap (Interface oldVal')) (ToMap (Interface newVal'))
                else if Type oldVal' = Some TTime \<and> Type newVal' = Some TTime then
                  (if TimeEqual (Interface oldVal') (Interface newVal')
                   then Some (Some [], None)
                   else Some (Some [([], Interface newVal')], None))
                else if Type oldVal' \<noteq> Type newVal' then
                  DiffMaps (ToMap (Interface oldVal')) (ToMap (Interface newVal'))
                else diffSameTypeStructs oldVal' newVal')"
| "diffSameTypeStructs oldVal newVal =
     (case diffFields oldVal (Fields newVal) [] [] of
        None \<Rightarrow> None
      | Some (Inl err) \<Rightarrow> Some (None, Some err)
      | Some (Inr (result, seenInNew)) \<Rightarrow>
          Some (Some (deletedFields (Fields oldVal) seenInNew result), None))"
| "diffFields oldVal [] result seenInNew = Some (Inr (result, seenInNew))"
| "diffFields oldVal (p # rest) result seenInNew =
     (if \<not> IsExported (fst p) then diffFields oldVal rest result seenInNew
      else if json_tag (fst p) = ''-'' then diffFields oldVal rest result seenInNew
      else
        let name = parseName (json_tag (fst p)) (Name (fst p));
            seen = name # seenInNew;
            newFieldVal = fieldValue p
        in if Kind newFieldVal = KPointer \<and> IsNil newFieldVal then
             (case getFieldByName oldVal name of
                Some oldFieldVal \<Rightarrow>
                  if \<not> (Kind oldFieldVal = KPointer \<and> IsNil oldFieldVal)
                  then diffFields oldVal rest (AList.update name VNil result) seen
                  else diffFields oldVal rest result seen
              | None \<Rightarrow> diffFields oldVal rest result seen)
           else
             (case getFieldByName oldVal name of
                None \<Rightarrow> diffFields oldVal rest (AList.update name (toMapValue newFieldVal) result) seen
              | Some oldFieldVal \<Rightarrow>
                  if Kind oldFieldVal = KPointer \<and> IsNil oldFieldVal
                  then diffFields oldVal rest (AList.update name (toMapValue newFieldVal) result) seen
                  else
                    (case directValuesEqual False oldFieldVal newFieldVal of
                       None \<Rightarrow> None
                     | Some True \<Rightarrow> diffFields oldVal rest result seen
                     | Some False \<Rightarrow>
                         if Type oldFieldVal = Some TTime \<and> Type newFieldVal = Some TTime
                         then diffFields oldVal rest
                                (AList.update name (toMapValue newFieldVal) result) seen
                         else if (isStruct (Interface oldFieldVal) \<or> isMap (Interface oldFieldVal))
                               \<and> (isStruct (Interface newFieldVal) \<or> isMap (Interface newFieldVal))
                         then
                           (case Diff (Interface oldFieldVal) (Interface newFieldVal) of
                              None \<Rightarrow> None
                            | Some (diff, Some err) \<Rightarrow> Some (Inl err)
                            | Some (diff, None) \<Rightarrow>
                                let result1 = (if diff \<noteq> VNil
                                               then (if isMap diff \<and> length (entries diff) > 0
                                                     then AList.update name diff result
                                                     else result)
                                               else result);
                                    result2 = (if isMap diff \<and> length (entries diff) > 0
                                               then AList.update name diff result1
                                               else result1)
                                in diffFields oldVal rest result2 seen)
                         else diffFields oldVal rest
                                (AList.update name (toMapValue newFieldVal) result) seen)))"
| "DiffMaps None None = Some (None, None)"
| "DiffMaps None (Some new) = Some (Some (copyAll new []), None)"
| "DiffMaps (Some old) None = Some (Some (deleteAll old []), None)"
| "DiffMaps (Some old) (Some new) =
     (case diffKeys old new [] [] of
        None \<Rightarrow> None
      | Some (Inl err) \<Rightarrow> Some (None, Some err)
      | Some (Inr (result, seenInNew)) \<Rightarrow> Some (Some (deletedKeys old seenInNew result), None))"
| "diffKeys old [] result seenInNew = Some (Inr (result, seenInNew))"
| "diffKeys old (e # rest) result seenInNew =
     (let key = fst e; newVal = snd e; seen = key # seenInNew
      in case map_of old key of
           None \<Rightarrow> diffKeys old rest (AList.update key newVal result) seen
         | Some oldVal \<Rightarrow>
             (case valuesEqual oldVal newVal of
                None \<Rightarrow> None
              | Some True \<Rightarrow> diffKeys old rest result seen
              | Some False \<Rightarrow>
                  if (isMap oldVal \<or> isStruct oldVal) \<and> (isMap newVal \<or> isStruct newVal) then
                    (case Diff oldVal newVal of
                       None \<Rightarrow> None
                     | Some (diff, Some err) \<Rightarrow> Some (Inl err)
                     | Some (diff, None) \<Rightarrow>
                         if diff \<noteq> VNil \<and> isMap diff \<and> length (entries diff) > 0
                         then diffKeys old rest (AList.update key diff result) seen
                         else diffKeys old rest result seen)
                  else diffKeys old rest (AList.update key newVal result) seen))"
| "valuesEqual a b =
     (if a = VNil \<and> b = VNil then Some True
      else if a = VNil \<or> b = VNil then Some False
      else if isMap a \<and> isMap b then mapsEqual (entries a) (entries b)
      else if isSlice a \<and> isSlice b then slicesEqual (elems a) (elems b)
      else if isStruct a \<and> isStruct b then
        (case DiffStructs a b of
           None \<Rightarrow> None
         | Some (diff, Some err) \<Rightarrow> Some False
         | Some (diff, None) \<Rightarrow> Some (length (entries (ofMap diff)) = 0))
      else Some (safeEqual a b))"
| "mapsEqual a b = (if length a \<noteq> length b then Some False else mapsEqual_loop a b)"
| "mapsEqual_loop [] b = Some True"
| "mapsEqual_loop (e # rest) b =
     (case map_of b (fst e) of
        None \<Rightarrow> Some False
      | Some valB \<Rightarrow>
          (case valuesEqual (snd e) valB of
             None \<Rightarrow> None
           | Some False \<Rightarrow> Some False
           | Some True \<Rightarrow> mapsEqual_loop rest b))"
| "slicesEqual a b = (if length a \<noteq> length b then Some False else slicesEqual_loop a b)"
| "slicesEqual_loop [] b = Some True"
| "slicesEqual_loop (x # xs) b =
     (case b of
        [] \<Rightarrow> None
      | y # ys \<Rightarrow>
          (case valuesEqual x y of
             None \<Rightarrow> None
           | Some False \<Rightarrow> Some False
           | Some True \<Rightarrow> slicesEqual_loop xs ys))"
  by pat_completeness auto

section \<open>The apply engine on mappings\<close>

text \<open>
  Modelled from the spec: \<^verbatim>\<open>ApplyToMap\<close> is called by the tests but its source file is
  not part of the sources at hand. Section 4.4: start from a copy of the target; for
  each entry of the patch, a deletion marker removes the key; where the existing value
  and the patch value are both mappings they are merged recursively; where the existing
  value is a record and the patch value a mapping, \<^verbatim>\<open>applyToRecord\<close> is tried on a
  clone and the raw patch mapping is stored when it fails; otherwise the patch value
  replaces the entry. \<^verbatim>\<open>applyToRecord\<close> is missing as well and is a parameter here
  (\<open>None\<close> is its failure). The tests add: two nil arguments give nil.
\<close>

function (sequential) ApplyToMap :: "(val \<Rightarrow> patch \<Rightarrow> val option) \<Rightarrow> gomap \<Rightarrow> gomap \<Rightarrow> gomap"
  and applyEntries :: "(val \<Rightarrow> patch \<Rightarrow> val option) \<Rightarrow> patch \<Rightarrow> patch \<Rightarrow> patch"
where
  "ApplyToMap applyToRecord target patch =
     (if target = None \<and> patch = None then None
      else Some (applyEntries applyToRecord (gentries patch) (gentries target)))"
| "applyEntries applyToRecord [] result = result"
| "applyEntries applyToRecord (e # rest) result =
     (let key = fst e; value = snd e
      in if value = VNil then applyEntries applyToRecord rest (AList.delete key result)
         else
           (case map_of result key of
              Some existing \<Rightarrow>
                if isMap existing \<and> isMap value then
                  applyEntries applyToRecord rest
                    (AList.update key
                       (ofMap (ApplyToMap applyToRecord (asMap existing) (asMap value))) result)
                else if isStruct existing \<and> isMap value then
                  (case applyToRecord existing (entries value) of
                     Some patched \<Rightarrow>
                       applyEntries applyToRecord rest (AList.update key patched result)
                   | None \<Rightarrow> applyEntries applyToRecord rest (AList.update key value result))
                else applyEntries applyToRecord rest (AList.update key value result)
            | None \<Rightarrow> applyEntries applyToRecord rest (AList.update key value result)))"
  by pat_completeness auto

section \<open>Notions the properties are stated with\<close>

text \<open>
  A slot is included when its field is exported and not tagged \<^verbatim>\<open>json:"-"\<close>; its
  external name is what \<^verbatim>\<open>parseName\<close> makes of the tag and the declared name. A slot is
  absent when it holds a nil pointer, a nil slice or a nil map, and present but zero
  when it holds the empty string, 0, false or an empty slice.
\<close>

definition included :: "field \<Rightarrow> bool" where
  "included f = (IsExported f \<and> json_tag f \<noteq> ''-'')"

definition extName :: "field \<Rightarrow> string" where
  "extName f = parseName (json_tag f) (Name f)"

definition absent :: "field \<times> val \<Rightarrow> bool" where
  "absent p = (case snd p of VNilPtr t \<Rightarrow> True | VNilSlice t \<Rightarrow> True | VNilMap t \<Rightarrow> True
                 | _ \<Rightarrow> False)"

definition zeroValue :: "val \<Rightarrow> bool" where
  "zeroValue v = (case v of VStr s \<Rightarrow> s = [] | VInt i \<Rightarrow> i = 0 | VBool b \<Rightarrow> \<not> b
                    | VSlice t xs \<Rightarrow> xs = [] | _ \<Rightarrow> False)"

text \<open>
  A primitive is an integer, a string or a boolean. The slots of a record are its
  included fields under their external names, in declaration order. A slot value is
  simple when it is a primitive or, in a field whose static type is not an interface, a
  pointer to a primitive or a slice of primitives, nil ones included. A record is simple
  when its included fields hold simple values and have pairwise distinct external names.
  Two slots are of the same type when they have the same field declaration and, if
  included, both hold primitives or both hold values of one pointer or slice type: two
  records of one struct type are related slot by slot in this way. \<open>slotEntry\<close> is the
  entry of a patch for an old and a new slot value, in terms of their \<^verbatim>\<open>toMapValue\<close>
  images: nothing when the images agree, the deletion marker when only the old one is
  there, the new image otherwise.
\<close>

definition primitive :: "val \<Rightarrow> bool" where
  "primitive v = (case v of VInt i \<Rightarrow> True | VStr s \<Rightarrow> True | VBool b \<Rightarrow> True | _ \<Rightarrow> False)"














section \<open>Termination\<close>

text \<open>
  Every recursive call is on a value below one of the arguments, or on the result of
  \<^verbatim>\<open>ToMap\<close>, which is no larger than its argument. The measure is the size of the two
  values compared, with a rank per function for the calls that pass them on unchanged.
\<close>

lemma size_Elem: "Kind a = KPointer \<Longrightarrow> \<not> IsNil a \<Longrightarrow> size (content (Elem a)) < size (content a)"
  by (cases a rule: Kind.cases) (auto simp: IsNil_def)

lemma size_Fields:
  "Kind a = KStruct \<Longrightarrow> Type a \<noteq> Some TTime \<Longrightarrow>
   size (content a) = Suc (size_list (size_prod (\<lambda>x. 0) size) (Fields a))"
  by (cases a rule: Kind.cases) (auto simp: Fields_def Type_def)

lemma size_elems:
  "Kind a = KSlice \<Longrightarrow> \<not> IsNil a \<Longrightarrow>
   size (content a) = Suc (size_list size (elems (content a)))"
  by (cases a rule: Kind.cases) (auto simp: elems_def IsNil_def)

lemma size_entries:
  "Kind a = KMap \<Longrightarrow> \<not> IsNil a \<Longrightarrow>
   size (content a) = Suc (size_list (size_prod (\<lambda>x. 0) size) (entries (content a)))"
  by (cases a rule: Kind.cases) (auto simp: entries_def IsNil_def)

termination directValuesEqual
  apply (relation "measure (\<lambda>x. case x of
          Inl (Inl (ro, a, b)) \<Rightarrow> 2 * size (content a) + 1
        | Inl (Inr (ro, fs, gs)) \<Rightarrow> 2 * size (VStruct [] fs)
        | Inr (Inl (ro, t, xs, ys)) \<Rightarrow> 2 * size (VSlice t xs)
        | Inr (Inr (ro, t, es, bm)) \<Rightarrow> 2 * size (VMap t es))")
  apply (auto simp: size_Elem fieldValue_def size_Fields size_elems size_entries)
  done

definition msz :: "('a \<times> val) list \<Rightarrow> nat" where
  "msz xs = size_list (size_prod (\<lambda>x. 0) size) xs"

definition gsz :: "gomap \<Rightarrow> nat" where
  "gsz m = (case m of None \<Rightarrow> 0 | Some xs \<Rightarrow> Suc (msz xs))"

definition validc :: "rvalue \<Rightarrow> nat" where
  "validc r = (if IsValid r then 1 else 0)"

lemma msz_simps [simp]:
  "msz [] = 0"
  "msz (p # xs) = size (snd p) + 2 + msz xs"
  by (cases p; simp add: msz_def)+

lemma msz_update: "msz (AList.update k v m) \<le> msz m + size v + 2"
  by (induction m) auto

lemma size_toMapValue_aux:
  "size (toMapValue r) \<le> size (content r)"
  "msz (toMap_fields fs m) \<le> msz fs + msz m"
  "size_list size (toMap_elems t xs) \<le> size_list size xs"
  "msz (toMap_entries t es m') \<le> msz es + msz m'"
proof (induction r and fs m and t xs and t es m' rule: toMapValue_toMap_fields_toMap_elems_toMap_entries.induct)
  case (15 p fs m)
  let ?v = "toMapValue (RV (IsIface (fst p)) (snd p))"
  let ?k = "parseName (json_tag (fst p)) (Name (fst p))"
  have u: "msz (AList.update ?k ?v m) \<le> msz m + size ?v + 2" by (rule msz_update)
  show ?case
  proof (cases "IsExported (fst p) \<and> json_tag (fst p) \<noteq> ''-''
                \<and> \<not> (Kind (RV (IsIface (fst p)) (snd p)) = KPointer \<and> IsNil (RV (IsIface (fst p)) (snd p)))")
    case False
    then have "msz (toMap_fields fs m) \<le> msz fs + msz m" using 15(1,2,3) by blast
    with False show ?thesis by (auto simp: Let_def)
  next
    case True
    with 15(4)[OF _ _ _] have v: "size ?v \<le> size (snd p)" by auto
    show ?thesis
    proof (cases "?v = VNil")
      case True
      with \<open>IsExported (fst p) \<and> _\<close> 15(6)[OF _ _ _ refl] show ?thesis by (auto simp: Let_def)
    next
      case False
      with \<open>IsExported (fst p) \<and> _\<close> 15(5)[OF _ _ _ refl] u v show ?thesis by (auto simp: Let_def)
    qed
  qed
next
  case (19 t e es m)
  let ?v = "toMapValue (RV (t = TAny) (snd e))"
  have "msz (AList.update (fst e) ?v m) \<le> msz m + size ?v + 2" by (rule msz_update)
  with 19 show ?case by auto
qed (auto simp: msz_def[symmetric])

lemma gsz_ToMap: "gsz (ToMap v) \<le> size v"
  using size_toMapValue_aux(1)[of "ValueOf v"]
  by (auto simp: ToMap_def gsz_def ValueOf_def msz_def split: val.splits if_splits)

lemma gsz_asMap: "gsz (asMap v) \<le> size v"
  by (auto simp: asMap_def gsz_def msz_def split: val.splits)

lemma size_map_of: "map_of b k = Some v \<Longrightarrow> size v < msz b"
  by (induction b) (auto split: if_splits)

lemma size_getFieldByName_loop:
  "getFieldByName_loop fs name = Some r \<Longrightarrow> size (content r) < msz fs"
  by (induction fs) (auto simp: fieldValue_def split: if_splits)

lemma msz_Fields: "msz (Fields r) \<le> size (content r)"
  by (auto simp: Fields_def msz_def split: val.splits)

lemma size_getFieldByName:
  "getFieldByName ov name = Some r \<Longrightarrow> size (content r) < size (content ov)"
  using size_getFieldByName_loop[of "Fields ov" name r] msz_Fields[of ov]
  by (simp add: getFieldByName_def)

lemma msz_entries: "msz (entries a) \<le> size a"
  by (auto simp: entries_def msz_def split: val.splits)

lemma size_elems_le: "size_list size (elems a) \<le> size a"
  by (auto simp: elems_def split: val.splits)

lemma size_Elem_le: "size (content (Elem o')) \<le> size (content o')"
  by (cases o' rule: Elem.cases) auto

lemma size_Elem_less: "Kind o' = KPointer \<Longrightarrow> \<not> IsNil o' \<Longrightarrow> size (content (Elem o')) < size (content o')"
  by (rule size_Elem)

lemma gsz_mapOrNil: "gsz (mapOrNil v) \<le> size v"
  using gsz_ToMap[of v] gsz_asMap[of v] by (simp add: mapOrNil_def gsz_def)

lemma gsz_ToMap_ifValid: "gsz (ToMap (ifValid r)) \<le> size (content r)"
  using gsz_ToMap[of "content r"] gsz_ToMap[of VNil] by (simp add: ifValid_def Interface_def)

lemma size_deref_le: "size (content (deref r)) \<le> size (content r)"
  using size_Elem_le[of r] by (simp add: deref_def)

lemma gsz_ToMap_deref: "gsz (ToMap (content (deref r))) \<le> size (content r)"
  using gsz_ToMap[of "content (deref r)"] size_deref_le[of r] by simp

lemma meas_lt:
  fixes c c' :: nat
  assumes "A \<le> A'" and "B \<le> B'" and "(A + B < A' + B' \<and> c < 20) \<or> c < c'"
  shows "20 * (A + B) + c < 20 * (A' + B') + c'"
  using assms by auto

lemma gsz_simps: "gsz None = 0" "gsz (Some xs) = Suc (msz xs)"
  by (simp_all add: gsz_def)

lemmas meas_simps = gsz_simps gsz_mapOrNil gsz_ToMap_ifValid size_deref_le gsz_ToMap_deref gsz_asMap
  msz_Fields msz_entries size_elems_le ValueOf_def Interface_def fieldValue_def validc_def

termination Diff
  apply (relation "measure (\<lambda>x. case x of
     Inl (Inl (Inl (old, new))) \<Rightarrow> 20 * (size old + size new) + 10
   | Inl (Inl (Inr (Inl (old, new)))) \<Rightarrow> 20 * (size old + size new) + 9
   | Inl (Inl (Inr (Inr (ov, nv)))) \<Rightarrow> 20 * (size (content ov) + size (content nv)) + (5 + validc ov + validc nv)
   | Inl (Inr (Inl (ov, nv))) \<Rightarrow> 20 * (size (content ov) + size (content nv)) + 4
   | Inl (Inr (Inr (Inl (ov, fs, r, s)))) \<Rightarrow> 20 * (size (content ov) + msz fs) + 0
   | Inl (Inr (Inr (Inr (old, new)))) \<Rightarrow> 20 * (gsz old + gsz new) + 3
   | Inr (Inl (Inl (old, es, r, s))) \<Rightarrow> 20 * (msz old + msz es) + 0
   | Inr (Inl (Inr (Inl (a, b)))) \<Rightarrow> 20 * (size a + size b) + 12
   | Inr (Inl (Inr (Inr (a, b)))) \<Rightarrow> 20 * (msz a + msz b) + 11
   | Inr (Inr (Inl (a, b))) \<Rightarrow> 20 * (msz a + msz b) + 0
   | Inr (Inr (Inr (Inl (a, b)))) \<Rightarrow> 20 * (size_list size a + size_list size b) + 11
   | Inr (Inr (Inr (Inr (a, b)))) \<Rightarrow> 20 * (size_list size a + size_list size b) + 0)")
  apply (simp_all only: in_measure sum.case prod.case wf_measure)
  apply (rule meas_lt;
         auto simp: meas_simps IsValid_def dest: size_map_of size_getFieldByName)+
  done

lemma size_asMap_Some: "asMap v = Some m \<Longrightarrow> size v = Suc (msz m)"
  by (auto simp: asMap_def msz_def split: val.splits)

termination ApplyToMap
  apply (relation "measure (\<lambda>x. case x of
     Inl (r, t, p) \<Rightarrow> 2 * gsz p + 1
   | Inr (r, es, res) \<Rightarrow> 2 * msz es)")
  apply (auto simp: gentries_def gsz_def split: option.splits dest: size_asMap_Some)
  done

section \<open>Properties\<close>

text \<open>
  The equations of the functions defined by one equation over variables are unfolded by
  hand; as rewrite rules they would loop.
\<close>

declare Diff.simps [simp del] DiffStructs.simps [simp del] diffStructValues.simps [simp del]
  diffSameTypeStructs.simps [simp del] valuesEqual.simps [simp del] mapsEqual.simps [simp del]
  slicesEqual.simps [simp del] directValuesEqual.simps [simp del] ApplyToMap.simps [simp del]

subsection \<open>Leaf comparison\<close>

lemma go_eq_uncomparable: "\<not> comparable a \<Longrightarrow> go_eq a b \<noteq> Some True"
  by (cases a; cases b) (auto split: if_splits)

text \<open>
  \<open>safeEqual\<close> returns true exactly when Go's \<^verbatim>\<open>==\<close> returns true without panicking:
  where \<^verbatim>\<open>==\<close> panics, and on every value of a type that is not comparable, it returns
  false. \<^verbatim>\<open>valuesEqual\<close> hands every pair that is not two maps, two \<^verbatim>\<open>[]any\<close> slices
  or two structs to it.
\<close>

lemma safeEqual_total:
  "safeEqual a b = (go_eq a b = Some True)
   \<and> (go_eq a b = None \<longrightarrow> \<not> safeEqual a b)
   \<and> (\<not> comparable a \<longrightarrow> \<not> safeEqual a b)
   \<and> (\<not> (isMap a \<and> isMap b) \<and> \<not> (isSlice a \<and> isSlice b) \<and> \<not> (isStruct a \<and> isStruct b)
        \<longrightarrow> valuesEqual a b = Some (safeEqual a b))"
proof -
  have 1: "safeEqual a b = (go_eq a b = Some True)"
    by (auto simp: safeEqual_def split: option.splits)
  have 2: "\<not> comparable a \<longrightarrow> \<not> safeEqual a b"
    using go_eq_uncomparable[of a b] by (simp add: 1)
  have 3: "\<not> (isMap a \<and> isMap b) \<and> \<not> (isSlice a \<and> isSlice b) \<and> \<not> (isStruct a \<and> isStruct b)
        \<longrightarrow> valuesEqual a b = Some (safeEqual a b)"
    by (cases a; cases b) (auto simp: valuesEqual.simps safeEqual_def)
  from 1 2 3 show ?thesis by simp
qed

text \<open>
  C7. The comparison of the engine is not total. On two slices of type \<^verbatim>\<open>[]int\<close>
  \<open>safeEqual\<close> recovers and returns false. The same two slices in a field of type
  \<^verbatim>\<open>any\<close> of two structs reach the last line of \<^verbatim>\<open>directValuesEqual\<close>,
  \<^verbatim>\<open>a.Interface() == b.Interface()\<close>, which runs under no \<^verbatim>\<open>recover\<close>: it panics, and
  so does \<^verbatim>\<open>valuesEqual\<close>, which compares two structs through \<^verbatim>\<open>DiffStructs\<close>, on the
  two structs and on two \<^verbatim>\<open>[]any\<close> slices that hold them.
\<close>

theorem valuesEqual_panics:
  "safeEqual (VSlice TInt [VInt 1]) (VSlice TInt [VInt 1]) = False
   \<and> directValuesEqual False (RV True (VSlice TInt [VInt 1])) (RV True (VSlice TInt [VInt 1]))
       = None
   \<and> valuesEqual (VStruct ''S'' [(Field ''V'' True ''v'' True, VSlice TInt [VInt 1])])
                  (VStruct ''S'' [(Field ''V'' True ''v'' True, VSlice TInt [VInt 1])]) = None
   \<and> valuesEqual (VSlice TAny [VStruct ''S'' [(Field ''V'' True ''v'' True, VSlice TInt [VInt 1])]])
                  (VSlice TAny [VStruct ''S'' [(Field ''V'' True ''v'' True, VSlice TInt [VInt 1])]])
       = None"
  by code_simp

subsection \<open>\<^verbatim>\<open>Diff\<close> on two leaves\<close>

text \<open>
  C2, as the code has it. When neither value is a struct or a \<^verbatim>\<open>map[string]any\<close>,
  \<^verbatim>\<open>Diff\<close> returns nil when \<open>safeEqual\<close> holds and the new value itself otherwise,
  with a nil error: the new value is not wrapped into a patch.
\<close>

theorem Diff_leaves:
  assumes "\<not> isStruct old" and "\<not> isMap old" and "\<not> isStruct new" and "\<not> isMap new"
  shows "Diff old new = Some (if safeEqual old new then VNil else new, None)"
  using assms by (auto simp: Diff.simps mapOrNil_def safeEqual_def)

theorem Diff_leaves_witness:
  "Diff (VInt 1) (VInt 2) = Some (VInt 2, None) \<and> Diff (VInt 1) (VInt 1) = Some (VNil, None)"
  using Diff_leaves [of "VInt 1" "VInt 2"] Diff_leaves [of "VInt 1" "VInt 1"]
  by (simp add: isStruct_def isMap_def safeEqual_def)

text \<open>
  The claim as stated asks for the one-entry patch under the empty key. At two unequal
  strings \<^verbatim>\<open>Diff\<close> returns the new string.
\<close>

theorem Diff_leaves_counterexample:
  "\<not> isStruct (VStr ''hello'') \<and> \<not> isMap (VStr ''hello'')
   \<and> \<not> isStruct (VStr ''world'') \<and> \<not> isMap (VStr ''world'')
   \<and> \<not> safeEqual (VStr ''hello'') (VStr ''world'')
   \<and> Diff (VStr ''hello'') (VStr ''world'') = Some (VStr ''world'', None)
   \<and> Diff (VStr ''hello'') (VStr ''world'') \<noteq> Some (VMap TAny [([], VStr ''world'')], None)"
  by (simp add: Diff.simps isStruct_def isMap_def mapOrNil_def safeEqual_def)

subsection \<open>Timestamps in mappings\<close>

text \<open>
  C4. \<^verbatim>\<open>isStruct\<close> holds of a \<^verbatim>\<open>time.Time\<close>, and \<^verbatim>\<open>DiffMaps\<close> has no case for it:
  two different instants at a common key go through \<^verbatim>\<open>Diff\<close> and
  \<^verbatim>\<open>diffStructValues\<close>, and the entry of the patch is the nested map that holds the new
  timestamp under the empty key, not the timestamp.
\<close>

theorem DiffMaps_timestamps:
  "DiffMaps (Some [(''t'', VTime 1 0)]) (Some [(''t'', VTime 2 0)])
     = Some (Some [(''t'', VMap TAny [([], VTime 2 0)])], None)"
  by code_simp

subsection \<open>\<^verbatim>\<open>DiffMaps\<close> against an empty or nil mapping\<close>

text \<open>
  A key that \<^verbatim>\<open>result\<close> does not hold yet is added at the end of the iteration order.
\<close>

lemma update_fresh: "k \<notin> fst ` set al \<Longrightarrow> AList.update k v al = al @ [(k, v)]"
  by (induction al) auto

lemma copyAll_fresh:
  "distinct (map fst m) \<Longrightarrow> fst ` set m \<inter> fst ` set r = {} \<Longrightarrow> copyAll m r = r @ m"
proof (induction m arbitrary: r)
  case Nil
  then show ?case by simp
next
  case (Cons e m)
  then have "fst e \<notin> fst ` set r" by auto
  then have u: "AList.update (fst e) (snd e) r = r @ [e]" by (simp add: update_fresh)
  have "copyAll m (r @ [e]) = (r @ [e]) @ m"
    using Cons.prems by (intro Cons.IH) auto
  with u show ?case by simp
qed

lemma deleteAll_fresh:
  "distinct (map fst m) \<Longrightarrow> fst ` set m \<inter> fst ` set r = {} \<Longrightarrow>
   deleteAll m r = r @ map (\<lambda>e. (fst e, VNil)) m"
proof (induction m arbitrary: r)
  case Nil
  then show ?case by simp
next
  case (Cons e m)
  then have "fst e \<notin> fst ` set r" by auto
  then have u: "AList.update (fst e) VNil r = r @ [(fst e, VNil)]" by (simp add: update_fresh)
  have "deleteAll m (r @ [(fst e, VNil)]) = (r @ [(fst e, VNil)]) @ map (\<lambda>e. (fst e, VNil)) m"
    using Cons.prems by (intro Cons.IH) auto
  with u show ?case by simp
qed

lemma deletedKeys_unseen:
  "distinct (map fst m) \<Longrightarrow> fst ` set m \<inter> fst ` set r = {} \<Longrightarrow>
   deletedKeys m [] r = r @ map (\<lambda>e. (fst e, VNil)) m"
proof (induction m arbitrary: r)
  case Nil
  then show ?case by simp
next
  case (Cons e m)
  then have "fst e \<notin> fst ` set r" by auto
  then have u: "AList.update (fst e) VNil r = r @ [(fst e, VNil)]" by (simp add: update_fresh)
  have "deletedKeys m [] (r @ [(fst e, VNil)]) = (r @ [(fst e, VNil)]) @ map (\<lambda>e. (fst e, VNil)) m"
    using Cons.prems by (intro Cons.IH) auto
  with u show ?case by simp
qed

lemma deletedKeys_empty: "deletedKeys [] seen r = r"
  by simp

lemma diffKeys_empty_old:
  "distinct (map fst es) \<Longrightarrow> fst ` set es \<inter> fst ` set r = {} \<Longrightarrow>
   diffKeys [] es r s = Some (Inr (r @ es, rev (map fst es) @ s))"
proof (induction es arbitrary: r s)
  case Nil
  then show ?case by simp
next
  case (Cons e es)
  then have "fst e \<notin> fst ` set r" by auto
  then have u: "AList.update (fst e) (snd e) r = r @ [e]" by (simp add: update_fresh)
  have "diffKeys [] es (r @ [e]) (fst e # s) = Some (Inr ((r @ [e]) @ es, rev (map fst es) @ fst e # s))"
    using Cons.prems by (intro Cons.IH) auto
  with u show ?case by (simp add: Let_def)
qed

text \<open>
  C5. For a mapping \<open>M\<close> (nil or not), diffing \<open>M\<close> against the empty map and against
  nil gives the patch that maps every key of \<open>M\<close> to the deletion marker, and diffing
  the empty map and nil against \<open>M\<close> gives a patch with the entries of \<open>M\<close>. The error
  is nil in the four cases.
\<close>

theorem DiffMaps_deletion_symmetry:
  assumes "distinct (map fst (gentries M))"
  shows "(\<exists>p. DiffMaps M (Some []) = Some (p, None)
              \<and> gentries p = map (\<lambda>e. (fst e, VNil)) (gentries M))
       \<and> (\<exists>p. DiffMaps M None = Some (p, None)
              \<and> gentries p = map (\<lambda>e. (fst e, VNil)) (gentries M))
       \<and> (\<exists>p. DiffMaps (Some []) M = Some (p, None) \<and> gentries p = gentries M)
       \<and> (\<exists>p. DiffMaps None M = Some (p, None) \<and> gentries p = gentries M)"
proof (cases M)
  case None
  then show ?thesis by (simp add: gentries_def)
next
  case (Some m)
  with assms have d: "distinct (map fst m)" by (simp add: gentries_def)
  have 1: "DiffMaps (Some m) (Some []) = Some (Some (map (\<lambda>e. (fst e, VNil)) m), None)"
    using deletedKeys_unseen[OF d, of "[]"] by simp
  have 2: "DiffMaps (Some m) None = Some (Some (map (\<lambda>e. (fst e, VNil)) m), None)"
    using deleteAll_fresh[OF d, of "[]"] by simp
  have 3: "DiffMaps (Some []) (Some m) = Some (Some m, None)"
    using diffKeys_empty_old[OF d, of "[]" "[]"] by simp
  have 4: "DiffMaps None (Some m) = Some (Some m, None)"
    using copyAll_fresh[OF d, of "[]"] by simp
  from 1 2 3 4 Some show ?thesis by (simp add: gentries_def)
qed

theorem DiffMaps_deletion_symmetry_witness:
  "DiffMaps (Some [(''a'', VInt 1), (''b'', VStr ''x'')]) (Some [])
     = Some (Some [(''a'', VNil), (''b'', VNil)], None)
   \<and> DiffMaps (Some [(''a'', VInt 1), (''b'', VStr ''x'')]) None
     = Some (Some [(''a'', VNil), (''b'', VNil)], None)
   \<and> DiffMaps (Some []) (Some [(''a'', VInt 1), (''b'', VStr ''x'')])
     = Some (Some [(''a'', VInt 1), (''b'', VStr ''x'')], None)
   \<and> DiffMaps None (Some [(''a'', VInt 1), (''b'', VStr ''x'')])
     = Some (Some [(''a'', VInt 1), (''b'', VStr ''x'')], None)"
  using DiffMaps_deletion_symmetry [of "Some [(''a'', VInt 1), (''b'', VStr ''x'')]"]
  by (simp add: gentries_def Let_def)

subsection \<open>The comparison of the engine against deep equality\<close>















subsection \<open>The keys of a patch\<close>



lemma diffKeys_seen:
  "diffKeys old es r s = Some (Inr (r', s')) \<Longrightarrow> set s' = fst ` set es \<union> set s"
proof (induction es arbitrary: r s)
  case Nil
  then show ?case by simp
next
  case (Cons e es)
  from Cons.prems show ?case
    by (auto simp: Let_def dest!: Cons.IH split: option.splits bool.splits if_splits prod.splits)
qed







subsection \<open>Deletion markers\<close>

lemma map_of_update_nil:
  "map_of (AList.update key v r) k = Some VNil \<Longrightarrow>
   (k = key \<and> v = VNil) \<or> map_of r k = Some VNil"
  by (auto simp: update_conv' split: if_splits)

lemma copyAll_nil:
  "map_of (copyAll m r) k = Some VNil \<Longrightarrow> map_of r k = Some VNil \<or> (k, VNil) \<in> set m"
proof (induction m arbitrary: r)
  case Nil
  then show ?case by simp
next
  case (Cons e m)
  from Cons.prems have "map_of (copyAll m (AList.update (fst e) (snd e) r)) k = Some VNil" by simp
  from Cons.IH[OF this] show ?case
    by (cases e) (auto dest: map_of_update_nil)
qed

lemma deleteAll_nil:
  "map_of (deleteAll m r) k = Some VNil \<Longrightarrow> map_of r k = Some VNil \<or> k \<in> fst ` set m"
proof (induction m arbitrary: r)
  case Nil
  then show ?case by simp
next
  case (Cons e m)
  from Cons.prems have "map_of (deleteAll m (AList.update (fst e) VNil r)) k = Some VNil" by simp
  from Cons.IH[OF this] show ?case
    by (auto dest: map_of_update_nil)
qed

lemma deletedKeys_nil:
  "map_of (deletedKeys old seen r) k = Some VNil \<Longrightarrow>
   map_of r k = Some VNil \<or> (k \<in> fst ` set old \<and> k \<notin> set seen)"
proof (induction old arbitrary: r)
  case Nil
  then show ?case by simp
next
  case (Cons e old)
  show ?case
  proof (cases "fst e \<in> set seen")
    case True
    with Cons.prems have "map_of (deletedKeys old seen r) k = Some VNil" by simp
    from Cons.IH[OF this] show ?thesis by auto
  next
    case False
    with Cons.prems have "map_of (deletedKeys old seen (AList.update (fst e) VNil r)) k = Some VNil"
      by simp
    from Cons.IH[OF this] False show ?thesis by (auto dest: map_of_update_nil)
  qed
qed

lemma diffKeys_nil:
  "diffKeys old es r s = Some (Inr (r', s')) \<Longrightarrow> map_of r' k = Some VNil \<Longrightarrow>
   map_of r k = Some VNil \<or> (k, VNil) \<in> set es"
proof (induction es arbitrary: r s)
  case Nil
  then show ?case by simp
next
  case (Cons e es)
  obtain key newVal where e: "e = (key, newVal)" by (cases e)
  from Cons.prems(1) e obtain r1 where
    r1: "diffKeys old es r1 (key # s) = Some (Inr (r', s'))" and
    cases: "r1 = r \<or> r1 = AList.update key newVal r
            \<or> (\<exists>d. d \<noteq> VNil \<and> r1 = AList.update key d r)"
    by (auto simp: Let_def split: option.splits bool.splits if_splits prod.splits)
  from Cons.IH[OF r1 Cons.prems(2)] have "map_of r1 k = Some VNil \<or> (k, VNil) \<in> set es" .
  then show ?case
  proof
    assume "map_of r1 k = Some VNil"
    with cases e show ?thesis by (auto dest: map_of_update_nil)
  next
    assume "(k, VNil) \<in> set es"
    then show ?thesis by simp
  qed
qed

text \<open>
  C6, as the code has it. A key that the patch maps to the deletion marker is missing
  from \<open>new\<close> and present in \<open>old\<close>, or \<open>new\<close> holds it with a nil value; in the second
  case \<open>old\<close> need not hold the key.
\<close>

theorem DiffMaps_deletion_markers:
  assumes "DiffMaps old new = Some (patch, err)"
    and "distinct (map fst (gentries new))"
    and "map_of (gentries patch) k = Some VNil"
  shows "(map_of (gentries new) k = None \<and> map_of (gentries old) k \<noteq> None)
       \<or> map_of (gentries new) k = Some VNil"
proof -
  from assms(3) obtain pm where pm: "patch = Some pm" and k: "map_of pm k = Some VNil"
    by (cases patch) (auto simp: gentries_def)
  show ?thesis
  proof (cases old)
    case None
    with assms(1) pm obtain nm where new: "new = Some nm" and "pm = copyAll nm []"
      by (cases new) auto
    with k copyAll_nil[of nm "[]" k] have "(k, VNil) \<in> set nm" by simp
    with assms(2) new show ?thesis by (simp add: gentries_def)
  next
    case old: (Some om)
    show ?thesis
    proof (cases new)
      case None
      with assms(1) old pm have "pm = deleteAll om []" by simp
      with k deleteAll_nil[of om "[]" k] have "k \<in> fst ` set om" by simp
      then have "map_of om k \<noteq> None" by (simp add: map_of_eq_None_iff)
      with None old show ?thesis by (simp add: gentries_def)
    next
      case new: (Some nm)
      with assms(2) have d: "distinct (map fst nm)" by (simp add: gentries_def)
      from assms(1) old new pm obtain r s where
        dk: "diffKeys om nm [] [] = Some (Inr (r, s))" and p: "pm = deletedKeys om s r"
        by (auto split: option.splits sum.splits prod.splits)
      from k p deletedKeys_nil[of om s r k] diffKeys_seen[OF dk]
      have "map_of r k = Some VNil \<or> (k \<in> fst ` set om \<and> k \<notin> fst ` set nm)" by auto
      then show ?thesis
      proof
        assume "map_of r k = Some VNil"
        from diffKeys_nil[OF dk this] have "(k, VNil) \<in> set nm" by simp
        with d new show ?thesis by (simp add: gentries_def)
      next
        assume a: "k \<in> fst ` set om \<and> k \<notin> fst ` set nm"
        then have "map_of om k \<noteq> None" and "map_of nm k = None"
          by (simp_all add: map_of_eq_None_iff)
        with old new show ?thesis by (simp add: gentries_def)
      qed
    qed
  qed
qed

theorem DiffMaps_deletion_markers_witness:
  "DiffMaps (Some [(''a'', VInt 1), (''b'', VInt 2), (''c'', VInt 3)])
            (Some [(''a'', VInt 1), (''b'', VInt 20), (''d'', VInt 4)])
     = Some (Some [(''b'', VInt 20), (''d'', VInt 4), (''c'', VNil)], None)
   \<and> map_of [(''a'', VInt 1), (''b'', VInt 20), (''d'', VInt 4)] ''c'' = None
   \<and> map_of [(''a'', VInt 1), (''b'', VInt 2), (''c'', VInt 3)] ''c'' \<noteq> None"
  using DiffMaps_deletion_markers
    [of "Some [(''a'', VInt 1), (''b'', VInt 2), (''c'', VInt 3)]"
        "Some [(''a'', VInt 1), (''b'', VInt 20), (''d'', VInt 4)]"
        "Some [(''b'', VInt 20), (''d'', VInt 4), (''c'', VNil)]" None "''c''"]
  by (simp add: gentries_def Let_def valuesEqual.simps isMap_def isSlice_def isStruct_def safeEqual_def)

text \<open>
  The claim as stated asks for the key to be present in \<open>old\<close>. A key that only \<open>new\<close>
  holds, with a nil value, is copied into the patch and reads there as a deletion marker.
\<close>

theorem DiffMaps_deletion_markers_counterexample:
  "DiffMaps (Some []) (Some [(''a'', VNil)]) = Some (Some [(''a'', VNil)], None)
   \<and> map_of [(''a'', VNil)] ''a'' = Some VNil
   \<and> map_of ([] :: patch) ''a'' = None"
  by (simp add: Let_def)

subsection \<open>The omission law of \<^verbatim>\<open>ToMap\<close>\<close>

lemma toMapValue_absent:
  "absent p \<Longrightarrow> \<not> IsIface (fst p) \<Longrightarrow> toMapValue (RV (IsIface (fst p)) (snd p)) = VNil"
  by (cases p; cases "snd p") (auto simp: absent_def)

lemma toMap_fields_absent:
  "toMap_fields fs m = toMap_fields (filter (\<lambda>p. \<not> (absent p \<and> \<not> IsIface (fst p))) fs) m"
proof (induction fs arbitrary: m)
  case Nil
  then show ?case by simp
next
  case (Cons p fs)
  show ?case
  proof (cases "absent p \<and> \<not> IsIface (fst p)")
    case True
    then have "toMap_fields (p # fs) m = toMap_fields fs m"
      using toMapValue_absent[of p] by simp
    with True Cons.IH show ?thesis by simp
  next
    case False
    with Cons.IH show ?thesis by (simp add: Let_def)
  qed
qed

lemma toMap_fields_step:
  "toMap_fields (p # fs) m = toMap_fields fs m
   \<or> (\<exists>v. toMap_fields (p # fs) m = toMap_fields fs (AList.update (extName (fst p)) v m))"
  by (auto simp: Let_def extName_def)

lemma toMap_fields_keys_mono: "fst ` set m \<subseteq> fst ` set (toMap_fields fs m)"
proof (induction fs arbitrary: m)
  case Nil
  then show ?case by simp
next
  case (Cons p fs)
  from toMap_fields_step[of p fs m] show ?case
  proof
    assume "toMap_fields (p # fs) m = toMap_fields fs m"
    with Cons.IH[of m] show ?thesis by simp
  next
    assume "\<exists>v. toMap_fields (p # fs) m = toMap_fields fs (AList.update (extName (fst p)) v m)"
    then obtain v where v: "toMap_fields (p # fs) m = toMap_fields fs (AList.update (extName (fst p)) v m)" ..
    have "fst ` set m \<subseteq> fst ` set (AList.update (extName (fst p)) v m)"
      by (auto simp: dom_update)
    with Cons.IH[of "AList.update (extName (fst p)) v m"] v show ?thesis by auto
  qed
qed

lemma toMap_fields_present:
  "p \<in> set fs \<Longrightarrow> included (fst p) \<Longrightarrow>
   toMapValue (RV (IsIface (fst p)) (snd p)) \<noteq> VNil \<Longrightarrow>
   \<not> (Kind (RV (IsIface (fst p)) (snd p)) = KPointer \<and> IsNil (RV (IsIface (fst p)) (snd p))) \<Longrightarrow>
   extName (fst p) \<in> fst ` set (toMap_fields fs m)"
proof (induction fs arbitrary: m)
  case Nil
  then show ?case by simp
next
  case (Cons q fs)
  show ?case
  proof (cases "p = q")
    case True
    let ?v = "toMapValue (RV (IsIface (fst p)) (snd p))"
    from Cons.prems(2,3,4) True
    have "toMap_fields (q # fs) m = toMap_fields fs (AList.update (extName (fst p)) ?v m)"
      by (auto simp: included_def extName_def Let_def)
    moreover have "extName (fst p) \<in> fst ` set (AList.update (extName (fst p)) ?v m)"
      by (simp add: dom_update)
    moreover have "fst ` set (AList.update (extName (fst p)) ?v m)
        \<subseteq> fst ` set (toMap_fields fs (AList.update (extName (fst p)) ?v m))"
      by (rule toMap_fields_keys_mono)
    ultimately show ?thesis by (simp only:) blast
  next
    case False
    with Cons.prems have "p \<in> set fs" by simp
    note ih = Cons.IH[OF this Cons.prems(2,3,4)]
    from toMap_fields_step[of q fs m] show ?thesis
    proof
      assume "toMap_fields (q # fs) m = toMap_fields fs m"
      with ih[of m] show ?thesis by simp
    next
      assume "\<exists>v. toMap_fields (q # fs) m = toMap_fields fs (AList.update (extName (fst q)) v m)"
      then obtain v where "toMap_fields (q # fs) m = toMap_fields fs (AList.update (extName (fst q)) v m)" ..
      with ih[of "AList.update (extName (fst q)) v m"] show ?thesis by simp
    qed
  qed
qed

lemma toMapValue_zero: "zeroValue v \<Longrightarrow> toMapValue (RV i v) \<noteq> VNil"
  by (cases i; cases v) (auto simp: zeroValue_def)

lemma zero_not_nil_ptr: "zeroValue v \<Longrightarrow> \<not> (Kind (RV i v) = KPointer \<and> IsNil (RV i v))"
  by (cases i; cases v) (auto simp: zeroValue_def IsNil_def)

lemma toMap_fields_zero:
  "p \<in> set fs \<Longrightarrow> included (fst p) \<Longrightarrow> zeroValue (snd p) \<Longrightarrow>
   extName (fst p) \<in> fst ` set (toMap_fields fs m)"
  by (rule toMap_fields_present) (simp_all add: toMapValue_zero zero_not_nil_ptr)

lemma toMap_fields_typed_nil:
  "p \<in> set fs \<Longrightarrow> included (fst p) \<Longrightarrow> IsIface (fst p) \<Longrightarrow> absent p \<Longrightarrow>
   extName (fst p) \<in> fst ` set (toMap_fields fs m)"
  by (rule toMap_fields_present) (auto simp: absent_def split: val.splits)

lemma toMap_fields_keys:
  "k \<in> fst ` set (toMap_fields fs m) \<Longrightarrow>
   k \<in> fst ` set m
   \<or> (\<exists>p \<in> set fs. included (fst p) \<and> \<not> (absent p \<and> \<not> IsIface (fst p)) \<and> extName (fst p) = k)"
proof (induction fs arbitrary: m)
  case Nil
  then show ?case by simp
next
  case (Cons p fs)
  show ?case
  proof (cases "included (fst p) \<and> \<not> (absent p \<and> \<not> IsIface (fst p))")
    case True
    from toMap_fields_step[of p fs m] show ?thesis
    proof
      assume "toMap_fields (p # fs) m = toMap_fields fs m"
      with Cons.prems Cons.IH[of m] show ?thesis by auto
    next
      assume "\<exists>v. toMap_fields (p # fs) m = toMap_fields fs (AList.update (extName (fst p)) v m)"
      then obtain v where "toMap_fields (p # fs) m = toMap_fields fs (AList.update (extName (fst p)) v m)" ..
      with Cons.prems Cons.IH[of "AList.update (extName (fst p)) v m"] True show ?thesis
        by (auto simp: dom_update)
    qed
  next
    case False
    then have "toMap_fields (p # fs) m = toMap_fields fs m"
      using toMapValue_absent[of p] by (auto simp: included_def Let_def)
    with Cons.prems Cons.IH[of m] show ?thesis by auto
  qed
qed

lemma parseName_modifier:
  assumes "CHR '','' \<notin> set name"
  shows "parseName (name @ CHR '','' # opts) fallback = parseName name fallback"
proof -
  have "takeWhile (\<lambda>c. c \<noteq> CHR '','') (name @ CHR '','' # opts)
          = name @ takeWhile (\<lambda>c. c \<noteq> CHR '','') (CHR '','' # opts)"
    by (rule takeWhile_append2) (use assms in auto)
  then have a: "takeWhile (\<lambda>c. c \<noteq> CHR '','') (name @ CHR '','' # opts) = name"
    by simp
  from assms have b: "takeWhile (\<lambda>c. c \<noteq> CHR '','') name = name"
    by (auto simp: takeWhile_eq_all_conv)
  show ?thesis
    unfolding parseName_def Let_def a b by simp
qed

lemma ToMap_struct: "ToMap (VStruct n fs) = Some (toMap_fields fs [])"
  by (simp add: ToMap_def ValueOf_def)

text \<open>
  C8, as the code has it. \<^verbatim>\<open>ToMap\<close> omits the absent slots whose static type is not an
  interface: the result is that of the struct without them, and every key of the result
  is the external name of an included slot that is not one of them. An included slot
  that is present but zero has its key in the result, whatever the modifiers of its
  tag; a modifier such as \<^verbatim>\<open>omitempty\<close> only ends the name. An included slot of
  interface type that holds a nil pointer, a nil slice or a nil map has its key in the
  result as well: the typed nil is a non-nil interface value.
\<close>

theorem ToMap_omission:
  "ToMap (VStruct n fs)
     = ToMap (VStruct n (filter (\<lambda>p. \<not> (absent p \<and> \<not> IsIface (fst p))) fs))
   \<and> (\<forall>k \<in> fst ` set (gentries (ToMap (VStruct n fs))).
         \<exists>p \<in> set fs. included (fst p) \<and> \<not> (absent p \<and> \<not> IsIface (fst p))
                       \<and> extName (fst p) = k)
   \<and> (\<forall>p \<in> set fs. included (fst p) \<and> zeroValue (snd p)
         \<longrightarrow> extName (fst p) \<in> fst ` set (gentries (ToMap (VStruct n fs))))
   \<and> (\<forall>p \<in> set fs. included (fst p) \<and> IsIface (fst p) \<and> absent p
         \<longrightarrow> extName (fst p) \<in> fst ` set (gentries (ToMap (VStruct n fs))))
   \<and> (CHR '','' \<notin> set name
         \<longrightarrow> parseName (name @ '',omitempty'') fallback = parseName name fallback)"
proof -
  have 1: "ToMap (VStruct n fs)
     = ToMap (VStruct n (filter (\<lambda>p. \<not> (absent p \<and> \<not> IsIface (fst p))) fs))"
    using toMap_fields_absent[of fs "[]"] by (simp add: ToMap_struct)
  have 2: "\<forall>k \<in> fst ` set (gentries (ToMap (VStruct n fs))).
         \<exists>p \<in> set fs. included (fst p) \<and> \<not> (absent p \<and> \<not> IsIface (fst p))
                       \<and> extName (fst p) = k"
  proof
    fix k assume "k \<in> fst ` set (gentries (ToMap (VStruct n fs)))"
    then have "k \<in> fst ` set (toMap_fields fs [])" by (simp add: ToMap_struct gentries_def)
    from toMap_fields_keys[OF this]
    show "\<exists>p \<in> set fs. included (fst p) \<and> \<not> (absent p \<and> \<not> IsIface (fst p))
                       \<and> extName (fst p) = k" by simp
  qed
  have 3: "\<forall>p \<in> set fs. included (fst p) \<and> zeroValue (snd p)
         \<longrightarrow> extName (fst p) \<in> fst ` set (gentries (ToMap (VStruct n fs)))"
  proof (intro ballI impI)
    fix p assume "p \<in> set fs" and "included (fst p) \<and> zeroValue (snd p)"
    then have "extName (fst p) \<in> fst ` set (toMap_fields fs [])"
      using toMap_fields_zero[of p fs "[]"] by simp
    then show "extName (fst p) \<in> fst ` set (gentries (ToMap (VStruct n fs)))"
      by (simp add: ToMap_struct gentries_def)
  qed
  have 4: "\<forall>p \<in> set fs. included (fst p) \<and> IsIface (fst p) \<and> absent p
         \<longrightarrow> extName (fst p) \<in> fst ` set (gentries (ToMap (VStruct n fs)))"
  proof (intro ballI impI)
    fix p assume "p \<in> set fs" and "included (fst p) \<and> IsIface (fst p) \<and> absent p"
    then have "extName (fst p) \<in> fst ` set (toMap_fields fs [])"
      using toMap_fields_typed_nil[of p fs "[]"] by simp
    then show "extName (fst p) \<in> fst ` set (gentries (ToMap (VStruct n fs)))"
      by (simp add: ToMap_struct gentries_def)
  qed
  have 5: "CHR '','' \<notin> set name
         \<longrightarrow> parseName (name @ '',omitempty'') fallback = parseName name fallback"
    using parseName_modifier[of name "''omitempty''" fallback] by simp
  from 1 2 3 4 5 show ?thesis by simp
qed

theorem ToMap_omission_witness:
  "ToMap (VStruct ''S''
      [(Field ''A'' True ''a'' False, VNilPtr TInt),
       (Field ''B'' True ''b'' False, VNilSlice TString),
       (Field ''C'' True ''c,omitempty'' False, VStr ''''),
       (Field ''D'' True '''' False, VInt 0),
       (Field ''E'' True ''e'' False, VBool False),
       (Field ''F'' True ''f'' False, VSlice TInt []),
       (Field ''G'' True ''g'' False, VNilMap TInt),
       (Field ''H'' True ''h'' True, VNilPtr TInt)])
   = Some [(''c'', VStr ''''), (''D'', VInt 0), (''e'', VBool False), (''f'', VSlice TAny []),
           (''h'', VNilPtr TInt)]
   \<and> parseName ''c,omitempty'' ''C'' = ''c''"
  using ToMap_omission [of "''S''"
      "[(Field ''A'' True ''a'' False, VNilPtr TInt),
       (Field ''B'' True ''b'' False, VNilSlice TString),
       (Field ''C'' True ''c,omitempty'' False, VStr ''''),
       (Field ''D'' True '''' False, VInt 0),
       (Field ''E'' True ''e'' False, VBool False),
       (Field ''F'' True ''f'' False, VSlice TInt []),
       (Field ''G'' True ''g'' False, VNilMap TInt),
       (Field ''H'' True ''h'' True, VNilPtr TInt)]" "''c''" "''C''"]
  by (simp add: ToMap_def ValueOf_def parseName_def IsNil_def absent_def)

text \<open>
  The claim as stated covers every included slot that holds a nil pointer. In a slot of
  type \<^verbatim>\<open>any\<close>, \<^verbatim>\<open>fv.Kind()\<close> is \<^verbatim>\<open>Interface\<close> and \<^verbatim>\<open>toMapValue\<close> takes the
  \<^verbatim>\<open>default\<close> branch: a nil \<^verbatim>\<open>*int\<close> stored there is kept under its key.
\<close>

theorem ToMap_omission_counterexample:
  "absent (Field ''V'' True ''v'' True, VNilPtr TInt)
   \<and> included (Field ''V'' True ''v'' True)
   \<and> ToMap (VStruct ''S'' [(Field ''V'' True ''v'' True, VNilPtr TInt)])
       = Some [(''v'', VNilPtr TInt)]"
  by (simp add: absent_def included_def ToMap_def ValueOf_def parseName_def)

subsection \<open>The error result\<close>

lemma noerr_lift:
  "\<forall>v e. X \<noteq> Some (v, Some e) \<Longrightarrow>
   (case X of None \<Rightarrow> None | Some (result, err) \<Rightarrow> Some (f result, err)) \<noteq> Some (v', Some e')"
  by (auto split: option.splits)

text \<open>
  No call of the engine returns an error value: by induction over the calls of the twelve
  mutually recursive functions. The two loops only pass on an error of \<^verbatim>\<open>Diff\<close>.
\<close>

lemma no_error_aux:
  "\<forall>v e. Diff old new \<noteq> Some (v, Some e)"
  "\<forall>v e. DiffStructs a b \<noteq> Some (v, Some e)"
  "\<forall>v e. diffStructValues ov nv \<noteq> Some (v, Some e)"
  "\<forall>v e. diffSameTypeStructs ov' nv' \<noteq> Some (v, Some e)"
  "\<forall>e. diffFields ov'' fs r s \<noteq> Some (Inl e)"
  "\<forall>v e. DiffMaps om nm \<noteq> Some (v, Some e)"
  "\<forall>e. diffKeys om' es r' s' \<noteq> Some (Inl e)"
  "valuesEqual x y = valuesEqual x y"
  "mapsEqual m1 m2 = mapsEqual m1 m2"
  "mapsEqual_loop m3 m4 = mapsEqual_loop m3 m4"
  "slicesEqual l1 l2 = slicesEqual l1 l2"
  "slicesEqual_loop l3 l4 = slicesEqual_loop l3 l4"
proof (induction old new and a b and ov nv and ov' nv' and ov'' fs r s and om nm and om' es r' s'
       and x y and m1 m2 and m3 m4 and l1 l2 and l3 l4
       rule: Diff_DiffStructs_diffStructValues_diffSameTypeStructs_diffFields_DiffMaps_diffKeys_valuesEqual_mapsEqual_mapsEqual_loop_slicesEqual_slicesEqual_loop.induct)
  case (1 old new)
  show ?case
  proof (intro allI)
    fix v e
    show "Diff old new \<noteq> Some (v, Some e)"
    proof (cases "old = VNil \<and> new = VNil")
      case True
      then show ?thesis by (simp add: Diff.simps)
    next
      case nn: False
      show ?thesis
      proof (cases "isStruct old \<and> isStruct new")
        case True
        from noerr_lift[where f=ofMap, OF 1(1)[OF nn True]] nn True show ?thesis
          by (auto simp: Diff.simps)
      next
        case ns: False
        show ?thesis
        proof (cases "isMap old \<and> isMap new")
          case True
          from noerr_lift[where f=ofMap, OF 1(2)[OF nn ns True]] nn ns True show ?thesis
            by (auto simp: Diff.simps)
        next
          case nm: False
          show ?thesis
          proof (cases "mapOrNil old \<noteq> None \<or> mapOrNil new \<noteq> None")
            case True
            from noerr_lift[where f=ofMap, OF 1(3)[OF nn ns nm refl refl True]] nn ns nm True show ?thesis
              by (auto simp: Diff.simps Let_def)
          next
            case False
            with nn ns nm show ?thesis by (auto simp: Diff.simps Let_def)
          qed
        qed
      qed
    qed
  qed
next
  case (2 old new)
  then show ?case by (simp add: DiffStructs.simps)
next
  case (3 oldVal newVal)
  note ih = 3(1) 3(2) 3(3)[OF _ _ _ _ refl] 3(4)[OF _ _ _ _ refl _ refl]
     3(5)[OF _ _ _ _ refl _ refl] 3(6)[OF _ _ _ _ refl _ refl]
  show ?case
    using ih by (simp add: diffStructValues.simps Let_def)
next
  case (4 oldVal newVal)
  then show ?case
    by (auto simp: diffSameTypeStructs.simps split: option.splits sum.splits)
next
  case (5 oldVal result seenInNew)
  then show ?case by simp
next
  case (6 oldVal p rest result seenInNew)
  let ?name = "parseName (json_tag (fst p)) (Name (fst p))"
  let ?seen = "?name # seenInNew"
  let ?nf = "fieldValue p"
  show ?case
  proof (intro allI notI)
    fix e assume A: "diffFields oldVal (p # rest) result seenInNew = Some (Inl e)"
    show False
    proof (cases "IsExported (fst p) \<and> json_tag (fst p) \<noteq> ''-''")
      case False
      show False
      proof (cases "IsExported (fst p)")
        case False
        from 6(1)[OF False] A False show False by simp
      next
        case True
        with \<open>\<not> (IsExported (fst p) \<and> json_tag (fst p) \<noteq> ''-'')\<close>
        have t: "json_tag (fst p) = ''-''" by simp
        have ex: "\<not> \<not> IsExported (fst p)" using True by simp
        from 6(2)[OF ex t] A True t show False by simp
      qed
    next
      case inc: True
      then have ex: "\<not> \<not> IsExported (fst p)" and tag: "json_tag (fst p) \<noteq> ''-''" by simp_all
      show False
      proof (cases "Kind ?nf = KPointer \<and> IsNil ?nf")
        case np: True
        show False
        proof (cases "getFieldByName oldVal ?name")
          case None
          from 6(3)[OF ex tag refl refl refl np None] A inc np None show False
            by (simp add: Let_def)
        next
          case (Some x2)
          from 6(4)[OF ex tag refl refl refl np Some] 6(5)[OF ex tag refl refl refl np Some]
            A inc np Some show False
            by (simp add: Let_def split: if_splits)
        qed
      next
        case nnp: False
        show False
        proof (cases "getFieldByName oldVal ?name")
          case None
          from 6(6)[OF ex tag refl refl refl nnp None] A inc nnp None show False
            by (simp add: Let_def)
        next
          case (Some x2)
          show False
          proof (cases "Kind x2 = KPointer \<and> IsNil x2")
            case True
            from 6(7)[OF ex tag refl refl refl nnp Some True] A inc nnp Some True show False
              by (simp add: Let_def)
          next
            case onp: False
            show False
            proof (cases "directValuesEqual False x2 ?nf")
              case None
              with A inc nnp Some onp show False by (simp add: Let_def)
            next
              case dve: (Some b)
              show False
              proof (cases b)
                case True
                then have bt: "b = True" by simp
                from 6(8)[OF ex tag refl refl refl nnp Some onp dve bt] A inc nnp Some onp dve True
                show False by (simp add: Let_def)
              next
                case False
                then have bf: "b = False" by simp
                show False
                proof (cases "Type x2 = Some TTime \<and> Type ?nf = Some TTime")
                  case True
                  from 6(9)[OF ex tag refl refl refl nnp Some onp dve bf True]
                    A inc nnp Some onp dve bf True
                  show False by (simp add: Let_def)
                next
                  case nt: False
                  show False
                  proof (cases "(isStruct (Interface x2) \<or> isMap (Interface x2))
                                \<and> (isStruct (Interface ?nf) \<or> isMap (Interface ?nf))")
                    case comp: True
                    note d = 6(10)[OF ex tag refl refl refl nnp Some onp dve bf nt comp]
                    show False
                    proof (cases "Diff (Interface x2) (Interface ?nf)")
                      case None
                      with A inc nnp Some onp dve bf nt comp show False by (simp add: Let_def)
                    next
                      case dd: (Some pr)
                      obtain diff err where pr: "pr = (diff, err)" by (cases pr)
                      with d dd have err: "err = None" by (cases err) auto
                      from 6(11)[OF ex tag refl refl refl nnp Some onp dve bf nt comp dd
                                  pr[symmetric] err refl refl]
                        A inc nnp Some onp dve bf nt comp dd pr err
                      show False by (simp add: Let_def)
                    qed
                  next
                    case ncomp: False
                    from 6(12)[OF ex tag refl refl refl nnp Some onp dve bf nt ncomp]
                      A inc nnp Some onp dve bf nt ncomp
                    show False by (simp add: Let_def)
                  qed
                qed
              qed
            qed
          qed
        qed
      qed
    qed
  qed
next
  case (10 old new)
  then show ?case by (auto split: option.splits sum.splits)
next
  case (12 old e rest result seenInNew)
  show ?case
  proof (intro allI notI)
    fix e0 assume A: "diffKeys old (e # rest) result seenInNew = Some (Inl e0)"
    show False
    proof (cases "map_of old (fst e)")
      case None
      from 12(1)[OF refl refl refl None] A None show False by (simp add: Let_def)
    next
      case (Some oldVal)
      show False
      proof (cases "valuesEqual oldVal (snd e)")
        case None
        with A Some show False by (simp add: Let_def)
      next
        case ve: (Some b)
        show False
        proof (cases b)
          case True
          then have bt: "b = True" by simp
          from 12(3)[OF refl refl refl Some ve bt] A Some ve True show False
            by (simp add: Let_def)
        next
          case False
          then have bf: "b = False" by simp
          show False
          proof (cases "(isMap oldVal \<or> isStruct oldVal) \<and> (isMap (snd e) \<or> isStruct (snd e))")
            case comp: True
            note d = 12(4)[OF refl refl refl Some ve bf comp]
            show False
            proof (cases "Diff oldVal (snd e)")
              case None
              with A Some ve bf comp show False by (simp add: Let_def)
            next
              case dd: (Some pr)
              obtain diff err where pr: "pr = (diff, err)" by (cases pr)
              with d dd have err: "err = None" by (cases err) auto
              show False
              proof (cases "diff \<noteq> VNil \<and> isMap diff \<and> 0 < length (entries diff)")
                case True
                from 12(5)[OF refl refl refl Some ve bf comp dd pr[symmetric] err True]
                  A Some ve bf comp dd pr err True
                show False by (simp add: Let_def)
              next
                case False
                from 12(6)[OF refl refl refl Some ve bf comp dd pr[symmetric] err False]
                  A Some ve bf comp dd pr err False
                show False by (auto simp: Let_def split: if_splits)
              qed
            qed
          next
            case ncomp: False
            from 12(7)[OF refl refl refl Some ve bf ncomp] A Some ve bf ncomp show False
              by (simp add: Let_def)
          qed
        qed
      qed
    qed
  qed
qed simp_all

text \<open>
  Whatever \<^verbatim>\<open>Diff\<close>, \<^verbatim>\<open>DiffStructs\<close> and \<^verbatim>\<open>DiffMaps\<close> return, the error of the result
  is nil: no path of the engine builds an error.
\<close>

theorem Diff_error_nil:
  "Diff old new \<noteq> Some (v, Some e)
   \<and> DiffStructs a b \<noteq> Some (m, Some e)
   \<and> DiffMaps om nm \<noteq> Some (m, Some e)"
  using no_error_aux(1)[of old new] no_error_aux(2)[of a b] no_error_aux(6)[of om nm]
  by blast

text \<open>
  C10. Diffing does not always succeed. The loops of \<^verbatim>\<open>diffSameTypeStructs\<close>,
  \<^verbatim>\<open>getFieldByName\<close> and \<^verbatim>\<open>toMapValue\<close> skip the unexported fields;
  \<^verbatim>\<open>directValuesEqual\<close> visits them and ends on \<^verbatim>\<open>a.Interface() == b.Interface()\<close>,
  which panics on a value reached through an unexported field, and nothing on the way
  recovers. On two records that hold a nested struct with such a field the three entry
  points return nothing at all, where on the same records without the field they return
  a patch and a nil error.
\<close>

theorem Diff_panics:
  "DiffStructs
     (VStruct ''Outer'' [(Field ''In'' True [] False,
        VStruct ''Inner'' [(Field ''x'' False [] False, VInt 1), (Field ''A'' True [] False, VInt 1)])])
     (VStruct ''Outer'' [(Field ''In'' True [] False,
        VStruct ''Inner'' [(Field ''x'' False [] False, VInt 1), (Field ''A'' True [] False, VInt 2)])])
     = None
   \<and> Diff
     (VStruct ''Outer'' [(Field ''In'' True [] False,
        VStruct ''Inner'' [(Field ''x'' False [] False, VInt 1), (Field ''A'' True [] False, VInt 1)])])
     (VStruct ''Outer'' [(Field ''In'' True [] False,
        VStruct ''Inner'' [(Field ''x'' False [] False, VInt 1), (Field ''A'' True [] False, VInt 2)])])
     = None
   \<and> DiffMaps
     (Some [(''k'', VStruct ''Outer'' [(Field ''In'' True [] False,
        VStruct ''Inner'' [(Field ''x'' False [] False, VInt 1), (Field ''A'' True [] False, VInt 1)])])])
     (Some [(''k'', VStruct ''Outer'' [(Field ''In'' True [] False,
        VStruct ''Inner'' [(Field ''x'' False [] False, VInt 1), (Field ''A'' True [] False, VInt 2)])])])
     = None
   \<and> DiffStructs
     (VStruct ''Outer'' [(Field ''In'' True [] False,
        VStruct ''Inner'' [(Field ''A'' True [] False, VInt 1)])])
     (VStruct ''Outer'' [(Field ''In'' True [] False,
        VStruct ''Inner'' [(Field ''A'' True [] False, VInt 2)])])
     = Some (Some [(''In'', VMap TAny [(''A'', VInt 2)])], None)"
  by code_simp

subsection \<open>The round trip of a patch\<close>



lemma distinct_update_keys: "distinct (map fst r) \<Longrightarrow> distinct (map fst (AList.update k v r))"
  by (rule distinct_update)







lemma valuesEqual_maps: "valuesEqual (VMap TAny x) (VMap TAny y) = mapsEqual x y"
  by (simp add: valuesEqual.simps isMap_def entries_def)


























subsection \<open>The direct struct diff against normalize-then-diff\<close>

text \<open>
  On primitives the two comparisons, \<^verbatim>\<open>directValuesEqual\<close> and \<^verbatim>\<open>valuesEqual\<close>, are
  equality, and \<^verbatim>\<open>toMapValue\<close> is the identity.
\<close>

lemma primitive_cases:
  "primitive v \<Longrightarrow> (\<exists>i. v = VInt i) \<or> (\<exists>s. v = VStr s) \<or> (\<exists>b. v = VBool b)"
  by (cases v) (simp_all add: primitive_def)




































end
